theory Spec2Isabelle
  imports Main
begin

section \<open>The chain orchestration executor (OrchestrationExecutor component)\<close>

text \<open>
  The component keeps four cells of React state (\<open>isExecuting\<close>, \<open>executionSteps\<close>,
  \<open>currentStepIndex\<close>, \<open>executionResults\<close>) and runs the chain inside one
  \<open>async\<close> function whose awaits are strictly sequential. The model passes the state
  explicitly; every \<open>throw\<close> is the \<open>Inl\<close> branch of a sum, every
  \<open>try\<close>/\<open>catch\<close> a case distinction on it.
\<close>

subsection \<open>Values\<close>

text \<open>JavaScript values of type \<open>any\<close> that travel between steps.\<close>

datatype jsval =
    JNull
  | JNum int
  | JBool bool
  | JStr string
  | JArr "jsval list"
  | JObj "(string \<times> jsval) list"

text \<open>What a \<open>catch\<close> clause can receive: an \<open>Error\<close> object with its message, or
  any other thrown value (\<open>error instanceof Error\<close> is false for it).\<close>

datatype thrown = Error string | NotAnError

definition messageOr :: "string \<Rightarrow> thrown \<Rightarrow> string" where
  \<comment> \<open>\<open>error instanceof Error ? error.message : fallback\<close>\<close>
  "messageOr fallback e = (case e of Error m \<Rightarrow> m | NotAnError \<Rightarrow> fallback)"

text \<open>Decimal rendering of an index inside a template string.\<close>

fun string_of_nat :: "nat \<Rightarrow> string" where
  "string_of_nat n =
     (if n < 10 then [char_of (48 + n)]
      else string_of_nat (n div 10) @ [char_of (48 + n mod 10)])"

declare string_of_nat.simps [simp del]

subsection \<open>Data model\<close>

text \<open>\<open>MCPServer\<close>: the executor reads only \<open>id\<close> and \<open>name\<close> (and shows
  \<open>description\<close>); the other columns of the catalog row are not touched.\<close>

record MCPServer =
  server_id :: string
  server_name :: string
  description :: string

datatype step_status = Pending | Running | Completed | Failed

record ExecutionStep =
  id_step :: string
  serverId :: string
  serverName :: string
  status :: step_status
  input_step :: "jsval option"
  output_step :: "jsval option"
  error :: "string option"
  duration :: "int option"
  startTime :: "int option"

datatype run_status = Success | Partial | RunError

text \<open>The object given to \<open>setExecutionResults\<close>; the success/partial form carries
  \<open>totalDuration\<close>, the error form carries \<open>error\<close>.\<close>

record ExecutionResults =
  status_run :: run_status
  error_run :: "string option"
  totalSteps :: nat
  completedSteps :: nat
  totalDuration :: "int option"

text \<open>The value a mock execution function resolves to: \<open>{ success, data }\<close>.\<close>

record exec_result =
  success :: bool
  data :: jsval

text \<open>
  The component as instantiated: its props, the table of execution functions (looked up
  by server name; a function either resolves or throws), and the two sources of
  nondeterminism it reads, the clock (\<open>now k\<close> is what the k-th call of
  \<open>Date.now()\<close> returns) and \<open>Math.random\<close> (\<open>random k\<close> stands for
  \<open>Math.floor(Math.random() * 10)\<close> at the k-th draw, taken modulo 10).
\<close>

record component =
  servers :: "MCPServer list"
  orchestrationServers :: "string list"
  executions :: "string \<Rightarrow> (jsval \<Rightarrow> thrown + exec_result) option"
  now :: "nat \<Rightarrow> int"
  random :: "nat \<Rightarrow> nat"

text \<open>The four \<open>useState\<close> cells. \<open>currentStepIndex\<close> is \<open>-1\<close> for "none",
  \<open>executionResults\<close> is \<open>None\<close> for \<open>null\<close>.\<close>

record state =
  isExecuting :: bool
  executionSteps :: "ExecutionStep list"
  currentStepIndex :: int
  executionResults :: "ExecutionResults option"

datatype console_entry = Warn string | ErrorLog string thrown

text \<open>One entry per call of \<open>executeStep\<close> made by the run loop: the index, the
  \<open>previousOutput\<close> argument it was given, and how the call ended.\<close>

record attempt =
  index :: nat
  given :: jsval
  outcome :: "thrown + jsval"

text \<open>
  Everything outside the React state that a run reads or writes: how many times the
  clock and the random generator have been read, the console, the snapshots handed to
  \<open>setExecutionSteps\<close> while a chain runs (in order), the calls of
  \<open>executeStep\<close>, and the lists handed to the \<open>onExecutionComplete\<close> callback.
\<close>

record world =
  clock :: nat
  draws :: nat
  console :: "console_entry list"
  published :: "ExecutionStep list list"
  attempts :: "attempt list"
  reported :: "ExecutionStep list list"

type_synonym cfg = "state \<times> world"

subsection \<open>State setters and effects\<close>

definition setExecutionSteps :: "ExecutionStep list \<Rightarrow> cfg \<Rightarrow> cfg" where
  "setExecutionSteps xs c =
     (case c of (s, w) \<Rightarrow> (s\<lparr>executionSteps := xs\<rparr>, w\<lparr>published := published w @ [xs]\<rparr>))"

definition setCurrentStepIndex :: "int \<Rightarrow> cfg \<Rightarrow> cfg" where
  "setCurrentStepIndex i c = (case c of (s, w) \<Rightarrow> (s\<lparr>currentStepIndex := i\<rparr>, w))"

definition setExecutionResults :: "ExecutionResults option \<Rightarrow> cfg \<Rightarrow> cfg" where
  "setExecutionResults r c = (case c of (s, w) \<Rightarrow> (s\<lparr>executionResults := r\<rparr>, w))"

definition setIsExecuting :: "bool \<Rightarrow> cfg \<Rightarrow> cfg" where
  "setIsExecuting b c = (case c of (s, w) \<Rightarrow> (s\<lparr>isExecuting := b\<rparr>, w))"

definition consoleLog :: "console_entry \<Rightarrow> cfg \<Rightarrow> cfg" where
  "consoleLog e c = (case c of (s, w) \<Rightarrow> (s, w\<lparr>console := console w @ [e]\<rparr>))"

definition onExecutionComplete :: "ExecutionStep list \<Rightarrow> cfg \<Rightarrow> cfg" where
  "onExecutionComplete xs c = (case c of (s, w) \<Rightarrow> (s, w\<lparr>reported := reported w @ [xs]\<rparr>))"

definition recordAttempt :: "nat \<Rightarrow> jsval \<Rightarrow> thrown + jsval \<Rightarrow> cfg \<Rightarrow> cfg" where
  "recordAttempt i v r c =
     (case c of (s, w) \<Rightarrow>
        (s, w\<lparr>attempts := attempts w @ [\<lparr>index = i, given = v, outcome = r\<rparr>]\<rparr>))"

definition dateNow :: "component \<Rightarrow> cfg \<Rightarrow> int \<times> cfg" where
  "dateNow P c = (case c of (s, w) \<Rightarrow> (now P (clock w), (s, w\<lparr>clock := Suc (clock w)\<rparr>)))"

definition mathRandom10 :: "component \<Rightarrow> cfg \<Rightarrow> nat \<times> cfg" where
  "mathRandom10 P c =
     (case c of (s, w) \<Rightarrow> (random P (draws w) mod 10, (s, w\<lparr>draws := Suc (draws w)\<rparr>)))"

definition elapsed :: "component \<Rightarrow> ExecutionStep \<Rightarrow> cfg \<Rightarrow> int \<times> cfg" where
  \<comment> \<open>\<open>Date.now() - (step.startTime || Date.now())\<close>: the left operand is read first; a
      start time that is unset or \<open>0\<close> is falsy and the clock is read again.\<close>
  "elapsed P step c =
     (case dateNow P c of (t1, c1) \<Rightarrow>
        (case startTime step of
           Some t \<Rightarrow>
             if t \<noteq> 0 then (t1 - t, c1)
             else (case dateNow P c1 of (t2, c2) \<Rightarrow> (t1 - t2, c2))
         | None \<Rightarrow> (case dateNow P c1 of (t2, c2) \<Rightarrow> (t1 - t2, c2))))"

subsection \<open>The table of mock execution functions\<close>

text \<open>
  The eight entries of \<open>mockServerExecutions\<close>; each waits and resolves to a fixed
  object, ignoring its input. The executor below takes the table from the component, so
  the general theorems hold for every table, also for one whose functions throw (which
  is how a lookup that lands on an inherited property of the object behaves).
\<close>

definition resolves :: "jsval \<Rightarrow> jsval \<Rightarrow> thrown + exec_result" where
  "resolves d inp = Inr \<lparr>success = True, data = d\<rparr>"

definition mockServerExecutions :: "string \<Rightarrow> (jsval \<Rightarrow> thrown + exec_result) option" where
  "mockServerExecutions nm =
    (if nm = ''slack-connector'' then Some (resolves (JObj
        [(''channels'', JArr [JStr ''#general'', JStr ''#dev'', JStr ''#random'']),
         (''messages_sent'', JNum 3), (''users_notified'', JNum 12)]))
     else if nm = ''github-integration'' then Some (resolves (JObj
        [(''repositories'', JArr [JStr ''repo1'', JStr ''repo2'']),
         (''pull_requests'', JNum 5), (''issues_created'', JNum 2),
         (''commits_analyzed'', JNum 23)]))
     else if nm = ''postgres-client'' then Some (resolves (JObj
        [(''tables_queried'', JNum 4), (''records_processed'', JNum 1250),
         (''queries_executed'', JNum 8)]))
     else if nm = ''notion-sync'' then Some (resolves (JObj
        [(''pages_updated'', JNum 7), (''blocks_created'', JNum 23),
         (''sync_status'', JStr ''completed'')]))
     else if nm = ''openai-assistant'' then Some (resolves (JObj
        [(''tokens_used'', JNum 1250), (''responses_generated'', JNum 3),
         (''function_calls'', JNum 5), (''analysis_complete'', JBool True)]))
     else if nm = ''stripe-payments'' then Some (resolves (JObj
        [(''payments_processed'', JNum 5), (''total_amount'', JNum 2450),
         (''subscriptions_created'', JNum 2)]))
     else if nm = ''discord-bot'' then Some (resolves (JObj
        [(''commands_executed'', JNum 8), (''messages_sent'', JNum 15),
         (''users_engaged'', JNum 23)]))
     else if nm = ''mongodb-client'' then Some (resolves (JObj
        [(''documents_processed'', JNum 156), (''collections_updated'', JNum 3),
         (''indexes_optimized'', JNum 2)]))
     else None)"

subsection \<open>initializeExecution\<close>

definition newStep :: "component \<Rightarrow> string \<Rightarrow> ExecutionStep" where
  \<comment> \<open>the body of the \<open>map\<close> callback; \<open>server?.name || 'Unknown Server'\<close> also
      falls back when the name is the empty string\<close>
  "newStep P sid =
     \<lparr>id_step = ''step-'' @ sid,
      serverId = sid,
      serverName =
        (case find (\<lambda>s. server_id s = sid) (servers P) of
           None \<Rightarrow> ''Unknown Server''
         | Some server \<Rightarrow>
             if server_name server = [] then ''Unknown Server'' else server_name server),
      status = Pending,
      input_step = None, output_step = None, error = None, duration = None, startTime = None\<rparr>"

definition initializeExecution :: "component \<Rightarrow> cfg \<Rightarrow> ExecutionStep list \<times> cfg" where
  "initializeExecution P c =
     (let steps = map (newStep P) (orchestrationServers P)
      in (steps,
          setExecutionResults None (setCurrentStepIndex (- 1) (setExecutionSteps steps c))))"

subsection \<open>executeStep\<close>

definition markRunning ::
  "component \<Rightarrow> nat \<Rightarrow> ExecutionStep list \<Rightarrow> cfg \<Rightarrow> ExecutionStep list \<times> cfg" where
  \<comment> \<open>\<open>steps.map((s, i) => i === stepIndex ? {...s, status: 'running', startTime:
      Date.now()} : s)\<close>: the clock is read only for the element that matches\<close>
  "markRunning P stepIndex steps c =
     (if stepIndex < length steps then
        (case dateNow P c of (t, c1) \<Rightarrow>
           (steps[stepIndex := (steps ! stepIndex)\<lparr>status := Running, startTime := Some t\<rparr>], c1))
      else (steps, c))"

definition markCompleted ::
  "nat \<Rightarrow> jsval \<Rightarrow> int \<Rightarrow> ExecutionStep list \<Rightarrow> ExecutionStep list" where
  "markCompleted stepIndex d dur updatedSteps =
     (if stepIndex < length updatedSteps then
        updatedSteps[stepIndex :=
          (updatedSteps ! stepIndex)\<lparr>status := Completed, output_step := Some d, duration := Some dur\<rparr>]
      else updatedSteps)"

definition markFailed ::
  "nat \<Rightarrow> thrown \<Rightarrow> int \<Rightarrow> ExecutionStep list \<Rightarrow> ExecutionStep list" where
  "markFailed stepIndex e dur updatedSteps =
     (if stepIndex < length updatedSteps then
        updatedSteps[stepIndex :=
          (updatedSteps ! stepIndex)\<lparr>status := Failed,
             error := Some (messageOr ''Unknown error'' e), duration := Some dur\<rparr>]
      else updatedSteps)"

definition genericResult :: "component \<Rightarrow> MCPServer \<Rightarrow> cfg \<Rightarrow> jsval \<times> cfg" where
  \<comment> \<open>the branch taken when the table has no function for the server's name: one draw
      for the delay, then the object literal, fields evaluated in order\<close>
  "genericResult P server c =
     (case mathRandom10 P c of (_, c1) \<Rightarrow>
      case dateNow P c1 of (t, c2) \<Rightarrow>
      case mathRandom10 P c2 of (r, c3) \<Rightarrow>
        (JObj [(''server_name'', JStr (server_name server)),
               (''execution_time'', JNum t),
               (''status'', JStr ''completed''),
               (''operations_performed'', JNum (int r + 1))], c3))"

definition executeStep ::
  "component \<Rightarrow> ExecutionStep option \<Rightarrow> nat \<Rightarrow> ExecutionStep list \<Rightarrow> jsval \<Rightarrow> cfg
     \<Rightarrow> (thrown + jsval) \<times> cfg" where
  "executeStep P stepo stepIndex steps previousOutput c =
     (case stepo of
        None \<Rightarrow> (Inl (Error (''Invalid step at index '' @ string_of_nat stepIndex)), c)
      | Some step \<Rightarrow>
          if serverId step = [] then
            (Inl (Error (''Invalid step at index '' @ string_of_nat stepIndex)), c)
          else
            (case find (\<lambda>s. server_id s = serverId step) (servers P) of
               None \<Rightarrow> (Inl (Error (''Server not found: '' @ serverId step)), c)
             | Some server \<Rightarrow>
                 (case markRunning P stepIndex steps c of (updatedSteps, c1) \<Rightarrow>
                  let c2 = setExecutionSteps updatedSteps c1 in
                  (case executions P (server_name server) of
                     None \<Rightarrow>
                       (case genericResult P server c2 of (d, c3) \<Rightarrow>
                        case elapsed P step c3 of (dur, c4) \<Rightarrow>
                          (Inr d, setExecutionSteps (markCompleted stepIndex d dur updatedSteps) c4))
                   | Some executeFn \<Rightarrow>
                       (case executeFn previousOutput of
                          Inr result \<Rightarrow>
                            (case elapsed P step c2 of (dur, c3) \<Rightarrow>
                               (Inr (data result),
                                setExecutionSteps
                                  (markCompleted stepIndex (data result) dur updatedSteps) c3))
                        | Inl err \<Rightarrow>
                            (case elapsed P step c2 of (dur, c3) \<Rightarrow>
                               (Inl err,
                                setExecutionSteps
                                  (markFailed stepIndex err dur updatedSteps) c3)))))))"

subsection \<open>executeChain\<close>

definition stepAt :: "ExecutionStep list \<Rightarrow> nat \<Rightarrow> ExecutionStep option" where
  \<comment> \<open>\<open>currentSteps[i]\<close>: \<open>undefined\<close> out of range\<close>
  "stepAt xs i = (if i < length xs then Some (xs ! i) else None)"

definition iteration ::
  "component \<Rightarrow> ExecutionStep list \<Rightarrow> nat \<Rightarrow> jsval \<Rightarrow> cfg \<Rightarrow> (thrown + jsval) \<times> cfg" where
  \<comment> \<open>one pass through the loop body; the result is the value of \<open>previousOutput\<close>
      afterwards. The assignment happens only when \<open>executeStep\<close> returns; the
      \<open>catch\<close> logs and continues.\<close>
  "iteration P currentSteps i previousOutput c =
     (let c1 = setCurrentStepIndex (int i) c in
      case executeStep P (stepAt currentSteps i) i currentSteps previousOutput c1 of
        (Inr out, c2) \<Rightarrow> (Inr out, recordAttempt i previousOutput (Inr out) c2)
      | (Inl stepError, c2) \<Rightarrow>
          (Inr previousOutput,
           consoleLog (ErrorLog (''Step '' @ string_of_nat i @ '' failed:'') stepError)
             (recordAttempt i previousOutput (Inl stepError) c2)))"

fun runLoop ::
  "component \<Rightarrow> ExecutionStep list \<Rightarrow> nat list \<Rightarrow> jsval \<Rightarrow> cfg \<Rightarrow> (thrown + jsval) \<times> cfg" where
  "runLoop P currentSteps [] previousOutput c = (Inr previousOutput, c)"
| "runLoop P currentSteps (i # rest) previousOutput c =
     (case iteration P currentSteps i previousOutput c of
        (Inl e, c') \<Rightarrow> (Inl e, c')
      | (Inr previousOutput', c') \<Rightarrow> runLoop P currentSteps rest previousOutput' c')"

definition orZero :: "int option \<Rightarrow> int" where
  \<comment> \<open>\<open>step.duration || 0\<close>\<close>
  "orZero d = (case d of None \<Rightarrow> 0 | Some x \<Rightarrow> if x = 0 then 0 else x)"

definition publishResults :: "component \<Rightarrow> cfg \<Rightarrow> cfg" where
  \<comment> \<open>the functional update after the loop: it reads the latest \<open>executionSteps\<close> and
      returns them unchanged\<close>
  "publishResults P c =
     (let currentSteps = executionSteps (fst c);
          completed = length (filter (\<lambda>s. status s = Completed) currentSteps);
          total = foldl (\<lambda>sum step. sum + orZero (duration step)) 0 currentSteps
      in onExecutionComplete currentSteps
           (setExecutionResults
              (Some \<lparr>status_run =
                        (if completed = length (orchestrationServers P) then Success else Partial),
                     error_run = None,
                     totalSteps = length (orchestrationServers P),
                     completedSteps = completed,
                     totalDuration = Some total\<rparr>) c))"

definition chainBody :: "component \<Rightarrow> cfg \<Rightarrow> (thrown + unit) \<times> cfg" where
  \<comment> \<open>the body of the outer \<open>try\<close>\<close>
  "chainBody P c =
     (case initializeExecution P c of (steps, c1) \<Rightarrow>
        (case runLoop P steps [0 ..< length (orchestrationServers P)] JNull c1 of
           (Inl e, c2) \<Rightarrow> (Inl e, c2)
         | (Inr _, c2) \<Rightarrow> (Inr (), publishResults P c2)))"

definition executeChain :: "component \<Rightarrow> cfg \<Rightarrow> cfg" where
  \<comment> \<open>the outer \<open>catch\<close> reads \<open>executionSteps\<close> from the closure, that is the
      state the function was created in\<close>
  "executeChain P c =
     (if length (orchestrationServers P) = 0 then
        consoleLog (Warn ''No servers in orchestration chain'') c
      else
        let c1 = setIsExecuting True c;
            c2 = (case chainBody P c1 of
                    (Inr _, c') \<Rightarrow> c'
                  | (Inl e, c') \<Rightarrow>
                      setExecutionResults
                        (Some \<lparr>status_run = RunError,
                               error_run = Some (messageOr ''Execution failed'' e),
                               totalSteps = length (orchestrationServers P),
                               completedSteps =
                                 length (filter (\<lambda>s. status s = Completed)
                                           (executionSteps (fst c))),
                               totalDuration = None\<rparr>)
                        (consoleLog (ErrorLog ''Chain execution failed:'' e) c'))
        in setCurrentStepIndex (- 1) (setIsExecuting False c2))"

subsection \<open>resetExecution\<close>

definition resetExecution :: "state \<Rightarrow> state" where
  "resetExecution s =
     s\<lparr>executionSteps := [], currentStepIndex := - 1,
       executionResults := None, isExecuting := False\<rparr>"

definition idle :: state where
  \<comment> \<open>the initial values of the four \<open>useState\<close> cells\<close>
  "idle = \<lparr>isExecuting = False, executionSteps = [], currentStepIndex = - 1,
            executionResults = None\<rparr>"

definition world0 :: world where
  "world0 = \<lparr>clock = 0, draws = 0, console = [], published = [], attempts = [], reported = []\<rparr>"

subsection \<open>A concrete instance\<close>

text \<open>
  A catalog of two servers whose names have entries in the table of mock functions, a
  clock that advances by one millisecond at every reading, and the chain as parameter.
\<close>

definition slack :: MCPServer where
  "slack = \<lparr>server_id = ''a'', server_name = ''slack-connector'',
             description = ''Slack workspace connector''\<rparr>"

definition github :: MCPServer where
  "github = \<lparr>server_id = ''b'', server_name = ''github-integration'',
              description = ''GitHub repositories''\<rparr>"

definition demo :: "string list \<Rightarrow> component" where
  "demo chain =
     \<lparr>servers = [slack, github], orchestrationServers = chain,
      executions = mockServerExecutions,
      now = (\<lambda>k. 1750000000000 + int k), random = (\<lambda>k. 7 * k + 3)\<rparr>"

definition run :: "string list \<Rightarrow> cfg" where
  \<comment> \<open>pressing "Execute Chain" on the freshly mounted component\<close>
  "run chain = executeChain (demo chain) (idle, world0)"

subsection \<open>Threading of the carried value through a list of attempts\<close>

fun threaded :: "jsval \<Rightarrow> attempt list \<Rightarrow> bool" where
  "threaded prev [] = True"
| "threaded prev (a # as) =
     (given a = prev \<and> threaded (case outcome a of Inl _ \<Rightarrow> prev | Inr out \<Rightarrow> out) as)"

section \<open>Effects of the operations\<close>

lemmas effect_defs =
  setExecutionSteps_def setCurrentStepIndex_def setExecutionResults_def setIsExecuting_def
  consoleLog_def onExecutionComplete_def recordAttempt_def dateNow_def mathRandom10_def

lemma elapsed_frame:
  "elapsed P step c = (d, c') \<Longrightarrow>
     fst c' = fst c \<and> console (snd c') = console (snd c) \<and> published (snd c') = published (snd c)
     \<and> attempts (snd c') = attempts (snd c) \<and> reported (snd c') = reported (snd c)"
  by (cases c) (auto simp: elapsed_def dateNow_def split: option.splits if_splits)

lemma markRunning_frame:
  "markRunning P i steps c = (us, c') \<Longrightarrow>
     length us = length steps \<and>
     fst c' = fst c \<and> console (snd c') = console (snd c) \<and> published (snd c') = published (snd c)
     \<and> attempts (snd c') = attempts (snd c) \<and> reported (snd c') = reported (snd c)"
  by (cases c) (auto simp: markRunning_def dateNow_def split: if_splits)

lemma genericResult_frame:
  "genericResult P sv c = (d, c') \<Longrightarrow>
     fst c' = fst c \<and> console (snd c') = console (snd c) \<and> published (snd c') = published (snd c)
     \<and> attempts (snd c') = attempts (snd c) \<and> reported (snd c') = reported (snd c)"
  by (cases c) (auto simp: genericResult_def dateNow_def mathRandom10_def split: prod.splits)

lemma length_markCompleted [simp]: "length (markCompleted i d dur us) = length us"
  by (simp add: markCompleted_def)

lemma length_markFailed [simp]: "length (markFailed i e dur us) = length us"
  by (simp add: markFailed_def)

lemma executeStep_frame:
  assumes "executeStep P so i steps prev c = (r, c')"
  shows "isExecuting (fst c') = isExecuting (fst c)"
    and "currentStepIndex (fst c') = currentStepIndex (fst c)"
    and "executionResults (fst c') = executionResults (fst c)"
    and "attempts (snd c') = attempts (snd c)"
    and "console (snd c') = console (snd c)"
    and "reported (snd c') = reported (snd c)"
    and "executionSteps (fst c') = executionSteps (fst c) \<or> length (executionSteps (fst c')) = length steps"
  using assms
  by (auto simp: executeStep_def setExecutionSteps_def Let_def
      split: option.splits if_splits prod.splits sum.splits
      dest!: elapsed_frame markRunning_frame genericResult_frame)

lemma iteration_effect:
  assumes "iteration P steps i prev c = (r, c')"
  shows "\<exists>a. index a = i \<and> given a = prev \<and> r = Inr (case outcome a of Inl _ \<Rightarrow> prev | Inr out \<Rightarrow> out)
            \<and> attempts (snd c') = attempts (snd c) @ [a]"
    and "isExecuting (fst c') = isExecuting (fst c)"
    and "executionResults (fst c') = executionResults (fst c)"
    and "reported (snd c') = reported (snd c)"
    and "executionSteps (fst c') = executionSteps (fst c) \<or> length (executionSteps (fst c')) = length steps"
proof -
  obtain r0 c0 where e: "executeStep P (stepAt steps i) i steps prev (setCurrentStepIndex (int i) c) = (r0, c0)"
    by (cases "executeStep P (stepAt steps i) i steps prev (setCurrentStepIndex (int i) c)")
  note fr = executeStep_frame [OF e]
  have c': "c' = (case r0 of Inr out \<Rightarrow> recordAttempt i prev (Inr out) c0
       | Inl stepError \<Rightarrow> consoleLog (ErrorLog (''Step '' @ string_of_nat i @ '' failed:'') stepError)
             (recordAttempt i prev (Inl stepError) c0))"
    and r: "r = Inr (case r0 of Inl _ \<Rightarrow> prev | Inr out \<Rightarrow> out)"
    using assms e by (auto simp: iteration_def Let_def split: sum.splits)
  show "\<exists>a. index a = i \<and> given a = prev \<and> r = Inr (case outcome a of Inl _ \<Rightarrow> prev | Inr out \<Rightarrow> out)
            \<and> attempts (snd c') = attempts (snd c) @ [a]"
    using fr(4) c' r
    by (cases c; cases c0; cases r0) (auto simp: recordAttempt_def consoleLog_def setCurrentStepIndex_def)
  show "isExecuting (fst c') = isExecuting (fst c)"
    using fr(1) c' by (cases c; cases c0; cases r0) (auto simp: recordAttempt_def consoleLog_def setCurrentStepIndex_def)
  show "executionResults (fst c') = executionResults (fst c)"
    using fr(3) c' by (cases c; cases c0; cases r0) (auto simp: recordAttempt_def consoleLog_def setCurrentStepIndex_def)
  show "reported (snd c') = reported (snd c)"
    using fr(6) c' by (cases c; cases c0; cases r0) (auto simp: recordAttempt_def consoleLog_def setCurrentStepIndex_def)
  show "executionSteps (fst c') = executionSteps (fst c) \<or> length (executionSteps (fst c')) = length steps"
    using fr(7) c' by (cases c; cases c0; cases r0) (auto simp: recordAttempt_def consoleLog_def setCurrentStepIndex_def)
qed

lemma runLoop_effect:
  "runLoop P steps idxs prev c = (r, c') \<Longrightarrow>
     (\<exists>new p. r = Inr p \<and> attempts (snd c') = attempts (snd c) @ new
        \<and> map index new = idxs \<and> threaded prev new)
     \<and> isExecuting (fst c') = isExecuting (fst c)
     \<and> executionResults (fst c') = executionResults (fst c)
     \<and> reported (snd c') = reported (snd c)
     \<and> (executionSteps (fst c') = executionSteps (fst c) \<or> length (executionSteps (fst c')) = length steps)"
proof (induction idxs arbitrary: prev c)
  case Nil
  then show ?case by auto
next
  case (Cons i rest)
  obtain r1 c1 where it: "iteration P steps i prev c = (r1, c1)"
    by (cases "iteration P steps i prev c")
  from iteration_effect(1) [OF it] obtain a where
    a: "index a = i" "given a = prev" "r1 = Inr (case outcome a of Inl _ \<Rightarrow> prev | Inr out \<Rightarrow> out)"
       "attempts (snd c1) = attempts (snd c) @ [a]"
    by blast
  from Cons.prems it a(3)
  have rest: "runLoop P steps rest (case outcome a of Inl _ \<Rightarrow> prev | Inr out \<Rightarrow> out) c1 = (r, c')"
    by simp
  from Cons.IH [OF rest] obtain new p where
    n: "r = Inr p" "attempts (snd c') = attempts (snd c1) @ new" "map index new = rest"
       "threaded (case outcome a of Inl _ \<Rightarrow> prev | Inr out \<Rightarrow> out) new"
    and fr: "isExecuting (fst c') = isExecuting (fst c1)"
       "executionResults (fst c') = executionResults (fst c1)"
       "reported (snd c') = reported (snd c1)"
       "executionSteps (fst c') = executionSteps (fst c1) \<or> length (executionSteps (fst c')) = length steps"
    by blast
  have "attempts (snd c') = attempts (snd c) @ (a # new) \<and> map index (a # new) = i # rest \<and> threaded prev (a # new)"
    using a n by simp
  with n(1) have "\<exists>new p. r = Inr p \<and> attempts (snd c') = attempts (snd c) @ new
        \<and> map index new = i # rest \<and> threaded prev new"
    by (intro exI [of _ "a # new"] exI [of _ p]) simp
  with fr iteration_effect(2-5) [OF it] show ?case
    by auto
qed

lemma threaded_nth:
  "threaded prev as \<Longrightarrow> Suc k < length as \<Longrightarrow>
     given (as ! Suc k) = (case outcome (as ! k) of Inl _ \<Rightarrow> given (as ! k) | Inr out \<Rightarrow> out)"
proof (induction as arbitrary: prev k)
  case Nil
  then show ?case by simp
next
  case (Cons a as)
  show ?case
  proof (cases k)
    case 0
    with Cons.prems show ?thesis by (cases as) (auto split: sum.splits)
  next
    case (Suc j)
    with Cons.prems Cons.IH [of _ j] show ?thesis by (auto split: sum.splits)
  qed
qed

lemma threaded_hd: "threaded prev as \<Longrightarrow> as \<noteq> [] \<Longrightarrow> given (as ! 0) = prev"
  by (cases as) auto

lemma initializeExecution_effect:
  "initializeExecution P c = (steps, c1) \<Longrightarrow>
     steps = map (newStep P) (orchestrationServers P)
     \<and> executionSteps (fst c1) = steps
     \<and> attempts (snd c1) = attempts (snd c)"
  by (cases c) (auto simp: initializeExecution_def Let_def effect_defs)

lemma foldl_durations:
  "foldl (\<lambda>sum step. sum + orZero (duration step)) a xs
     = a + sum_list (map (\<lambda>s. case duration s of None \<Rightarrow> 0 | Some d \<Rightarrow> d) xs)"
  by (induction xs arbitrary: a) (auto simp: orZero_def split: option.splits)

lemma publishResults_effect:
  "executionSteps (fst (publishResults P c)) = executionSteps (fst c)"
  "attempts (snd (publishResults P c)) = attempts (snd c)"
  "executionResults (fst (publishResults P c)) =
     Some \<lparr>status_run =
             (if length (filter (\<lambda>s. status s = Completed) (executionSteps (fst c)))
                 = length (orchestrationServers P) then Success else Partial),
           error_run = None,
           totalSteps = length (orchestrationServers P),
           completedSteps = length (filter (\<lambda>s. status s = Completed) (executionSteps (fst c))),
           totalDuration =
             Some (sum_list (map (\<lambda>s. case duration s of None \<Rightarrow> 0 | Some d \<Rightarrow> d)
                     (executionSteps (fst c))))\<rparr>"
  by (cases c; simp add: publishResults_def Let_def effect_defs foldl_durations)+

lemma finally_effect:
  "executionSteps (fst (setCurrentStepIndex i (setIsExecuting b c))) = executionSteps (fst c)"
  "executionResults (fst (setCurrentStepIndex i (setIsExecuting b c))) = executionResults (fst c)"
  "attempts (snd (setCurrentStepIndex i (setIsExecuting b c))) = attempts (snd c)"
  by (cases c; simp add: effect_defs)+

lemma chainBody_effect:
  assumes "chainBody P c = (r, c')"
  shows "r = Inr ()"
    and "\<exists>c2 new.
           c' = publishResults P c2
           \<and> length (executionSteps (fst c2)) = length (orchestrationServers P)
           \<and> attempts (snd c2) = attempts (snd c) @ new
           \<and> map index new = [0 ..< length (orchestrationServers P)]
           \<and> threaded JNull new"
proof -
  obtain steps c1 where i: "initializeExecution P c = (steps, c1)"
    by (cases "initializeExecution P c")
  obtain r2 c2 where l: "runLoop P steps [0 ..< length (orchestrationServers P)] JNull c1 = (r2, c2)"
    by (cases "runLoop P steps [0 ..< length (orchestrationServers P)] JNull c1")
  from runLoop_effect [OF l] obtain new p where
    n: "r2 = Inr p" "attempts (snd c2) = attempts (snd c1) @ new"
       "map index new = [0 ..< length (orchestrationServers P)]" "threaded JNull new"
    and len: "executionSteps (fst c2) = executionSteps (fst c1) \<or> length (executionSteps (fst c2)) = length steps"
    by blast
  from assms i l n(1) have res: "r = Inr ()" "c' = publishResults P c2"
    by (simp_all add: chainBody_def)
  show "r = Inr ()" by (rule res)
  from initializeExecution_effect [OF i] len
  have "length (executionSteps (fst c2)) = length (orchestrationServers P)"
    by auto
  with res(2) n initializeExecution_effect [OF i]
  show "\<exists>c2 new.
           c' = publishResults P c2
           \<and> length (executionSteps (fst c2)) = length (orchestrationServers P)
           \<and> attempts (snd c2) = attempts (snd c) @ new
           \<and> map index new = [0 ..< length (orchestrationServers P)]
           \<and> threaded JNull new"
    by (intro exI [of _ c2] exI [of _ new]) simp
qed

lemma executeChain_nonempty:
  assumes "orchestrationServers P \<noteq> []"
  shows "\<exists>c2 new.
           executeChain P c = setCurrentStepIndex (- 1) (setIsExecuting False (publishResults P c2))
           \<and> length (executionSteps (fst c2)) = length (orchestrationServers P)
           \<and> attempts (snd c2) = attempts (snd c) @ new
           \<and> map index new = [0 ..< length (orchestrationServers P)]
           \<and> threaded JNull new"
proof -
  obtain r c' where b: "chainBody P (setIsExecuting True c) = (r, c')"
    by (cases "chainBody P (setIsExecuting True c)")
  have a0: "attempts (snd (setIsExecuting True c)) = attempts (snd c)"
    by (cases c) (simp add: effect_defs)
  from chainBody_effect(2) [OF b] obtain c2 new where
    c2: "c' = publishResults P c2"
        "length (executionSteps (fst c2)) = length (orchestrationServers P)"
        "attempts (snd c2) = attempts (snd (setIsExecuting True c)) @ new"
        "map index new = [0 ..< length (orchestrationServers P)]"
        "threaded JNull new"
    by blast
  from assms b chainBody_effect(1) [OF b] c2(1)
  have "executeChain P c = setCurrentStepIndex (- 1) (setIsExecuting False (publishResults P c2))"
    by (simp add: executeChain_def Let_def)
  with c2 a0 show ?thesis
    by (intro exI [of _ c2] exI [of _ new]) simp
qed

section \<open>Continuation after a failed step\<close>

text \<open>
  C1 (as stated, refuted). The claim says that every step after a failed one is given
  \<open>null\<close>. With catalog entries \<open>a\<close> and \<open>b\<close> and the chain \<open>a, zz, b\<close>, step 1
  fails (\<open>zz\<close> is not in the catalog) and step 2 is given the output of step 0, not
  \<open>null\<close>: the three attempts, as (index, input is null, call threw).
\<close>

theorem continuation_null_counterexample:
  "map (\<lambda>a. (index a, given a = JNull, isl (outcome a)))
     (attempts (snd (run [''a'', ''zz'', ''b''])))
   = [(0, True, False), (1, False, True), (2, False, False)]"
  by code_simp

text \<open>
  C1 (amended). For every non-empty chain the loop calls \<open>executeStep\<close> once for every
  index \<open>0 .. n-1\<close>, in order, whether or not earlier calls threw; the first call is
  given \<open>null\<close>; the call after a failed one is given what the failed call was given
  (the assignment to \<open>previousOutput\<close> is skipped), and the call after a successful
  one is given its output.
\<close>

theorem continuation_carries_previous_output:
  assumes "orchestrationServers P \<noteq> []"
  shows "\<exists>new. attempts (snd (executeChain P c)) = attempts (snd c) @ new
           \<and> map index new = [0 ..< length (orchestrationServers P)]
           \<and> given (new ! 0) = JNull
           \<and> (\<forall>k. Suc k < length (orchestrationServers P) \<longrightarrow>
                  given (new ! Suc k)
                    = (case outcome (new ! k) of Inl e \<Rightarrow> given (new ! k) | Inr out \<Rightarrow> out))"
proof -
  from executeChain_nonempty [OF assms, of c] obtain c2 new where
    run: "executeChain P c = setCurrentStepIndex (- 1) (setIsExecuting False (publishResults P c2))"
    and att: "attempts (snd c2) = attempts (snd c) @ new"
    and idx: "map index new = [0 ..< length (orchestrationServers P)]"
    and thr: "threaded JNull new"
    by blast
  from idx have len: "length new = length (orchestrationServers P)"
    by (metis length_map length_upt minus_nat.diff_0)
  with assms have ne: "new \<noteq> []" by auto
  have 1: "attempts (snd (executeChain P c)) = attempts (snd c) @ new"
    by (simp add: run finally_effect publishResults_effect att)
  have 2: "given (new ! 0) = JNull"
    by (rule threaded_hd [OF thr ne])
  have 3: "\<forall>k. Suc k < length (orchestrationServers P) \<longrightarrow>
              given (new ! Suc k)
                = (case outcome (new ! k) of Inl e \<Rightarrow> given (new ! k) | Inr out \<Rightarrow> out)"
    using threaded_nth [OF thr] len by simp
  from 1 idx 2 3 show ?thesis
    by (intro exI [of _ new] conjI)
qed

theorem continuation_carries_previous_output_witness:
  "orchestrationServers (demo [''a'', ''zz'', ''b'']) \<noteq> []
   \<and> (\<exists>new. attempts (snd (executeChain (demo [''a'', ''zz'', ''b'']) (idle, world0)))
              = attempts (snd (idle, world0)) @ new
           \<and> map index new = [0 ..< length (orchestrationServers (demo [''a'', ''zz'', ''b'']))]
           \<and> given (new ! 0) = JNull
           \<and> (\<forall>k. Suc k < length (orchestrationServers (demo [''a'', ''zz'', ''b''])) \<longrightarrow>
                  given (new ! Suc k)
                    = (case outcome (new ! k) of Inl e \<Rightarrow> given (new ! k) | Inr out \<Rightarrow> out)))"
proof -
  have h: "orchestrationServers (demo [''a'', ''zz'', ''b'']) \<noteq> []"
    by (simp add: demo_def)
  show ?thesis
    by (rule conjI [OF h continuation_carries_previous_output [OF h]])
qed

section \<open>A step whose entry is missing from the catalog\<close>

text \<open>
  C2 (the code at the failing input). The chain \<open>unknown-id\<close> over a catalog without
  that entry: \<open>executeStep\<close> throws "Server not found" before its \<open>try\<close> block, so
  the call ends with that error and the run goes on to publish a partial outcome, but the
  step is never published as failed: the only snapshot is the initial one, and in the
  final state the step is still pending with no error recorded on it.
\<close>

theorem missing_entry_step_stays_pending:
  "map outcome (attempts (snd (run [''unknown-id''])))
     = [Inl (Error ''Server not found: unknown-id'')]
   \<and> map (map status) (published (snd (run [''unknown-id'']))) = [[Pending]]
   \<and> map status (executionSteps (fst (run [''unknown-id'']))) = [Pending]
   \<and> map error (executionSteps (fst (run [''unknown-id'']))) = [None]
   \<and> map serverName (executionSteps (fst (run [''unknown-id'']))) = [''Unknown Server'']
   \<and> executionResults (fst (run [''unknown-id'']))
       = Some \<lparr>status_run = Partial, error_run = None, totalSteps = 1, completedSteps = 0,
               totalDuration = Some 0\<rparr>"
  by code_simp

section \<open>Status of the steps after a run\<close>

text \<open>
  C3 (the code at the failing input). The chain \<open>a, b\<close>, both entries in the catalog,
  both calls of \<open>executeStep\<close> returning normally: every call rebuilds the list from
  the all-pending copy made before the loop, so the snapshot that marks step 1 completed
  shows step 0 pending again. The final list has two steps, the first of them pending,
  and the outcome counts one completed step out of two.
\<close>

theorem two_successful_steps_leave_first_pending:
  "map (\<lambda>a. isl (outcome a)) (attempts (snd (run [''a'', ''b'']))) = [False, False]
   \<and> map status (executionSteps (fst (run [''a'', ''b'']))) = [Pending, Completed]
   \<and> map (map status) (published (snd (run [''a'', ''b''])))
       = [[Pending, Pending], [Running, Pending], [Completed, Pending],
          [Pending, Running], [Pending, Completed]]
   \<and> map_option (\<lambda>r. (status_run r, completedSteps r, totalSteps r))
        (executionResults (fst (run [''a'', ''b''])))
       = Some (Partial, 1, 2)"
  by code_simp

section \<open>Classification of the outcome\<close>

text \<open>
  C4. For every non-empty chain of length \<open>n\<close> the run publishes an outcome whose
  \<open>completedSteps\<close> is the number of steps with status completed in the final list
  (which has \<open>n\<close> steps); the outcome is success exactly when that number is \<open>n\<close>
  and partial exactly when it is smaller than \<open>n\<close>, zero included.
\<close>

theorem classification_law:
  assumes "orchestrationServers P \<noteq> []"
  shows "\<exists>r. executionResults (fst (executeChain P c)) = Some r
           \<and> length (executionSteps (fst (executeChain P c))) = length (orchestrationServers P)
           \<and> totalSteps r = length (orchestrationServers P)
           \<and> completedSteps r
               = length (filter (\<lambda>s. status s = Completed) (executionSteps (fst (executeChain P c))))
           \<and> (status_run r = Success \<longleftrightarrow> completedSteps r = length (orchestrationServers P))
           \<and> (status_run r = Partial \<longleftrightarrow> completedSteps r < length (orchestrationServers P))"
proof -
  from executeChain_nonempty [OF assms, of c] obtain c2 where
    run: "executeChain P c = setCurrentStepIndex (- 1) (setIsExecuting False (publishResults P c2))"
    and len: "length (executionSteps (fst c2)) = length (orchestrationServers P)"
    by blast
  have steps: "executionSteps (fst (executeChain P c)) = executionSteps (fst c2)"
    by (simp add: run finally_effect publishResults_effect)
  have "length (filter (\<lambda>s. status s = Completed) (executionSteps (fst c2)))
          \<le> length (executionSteps (fst c2))"
    by (rule length_filter_le)
  with len have le: "length (filter (\<lambda>s. status s = Completed) (executionSteps (fst c2)))
          \<le> length (orchestrationServers P)"
    by simp
  show ?thesis
    unfolding steps
    using le len
    by (auto simp: run finally_effect publishResults_effect)
qed

theorem classification_law_witness:
  "orchestrationServers (demo [''a'', ''b'']) \<noteq> []
   \<and> (\<exists>r. executionResults (fst (executeChain (demo [''a'', ''b'']) (idle, world0))) = Some r
           \<and> length (executionSteps (fst (executeChain (demo [''a'', ''b'']) (idle, world0))))
               = length (orchestrationServers (demo [''a'', ''b'']))
           \<and> totalSteps r = length (orchestrationServers (demo [''a'', ''b'']))
           \<and> completedSteps r
               = length (filter (\<lambda>s. status s = Completed)
                           (executionSteps (fst (executeChain (demo [''a'', ''b'']) (idle, world0)))))
           \<and> (status_run r = Success
                 \<longleftrightarrow> completedSteps r = length (orchestrationServers (demo [''a'', ''b''])))
           \<and> (status_run r = Partial
                 \<longleftrightarrow> completedSteps r < length (orchestrationServers (demo [''a'', ''b'']))))"
proof -
  have h: "orchestrationServers (demo [''a'', ''b'']) \<noteq> []"
    by (simp add: demo_def)
  show ?thesis
    by (rule conjI [OF h classification_law [OF h]])
qed

section \<open>Order of the step transitions\<close>

text \<open>
  C5 (the code at the failing input). The chain \<open>unknown-id, b\<close> with only \<open>b\<close> in
  the catalog. The snapshots published during the run, in order: step 1 is running in
  the second one, and step 0 is completed or failed in none of them, neither before that
  point nor after it, because the call for step 0 threw before anything was published.
\<close>

theorem second_step_runs_while_first_never_terminal:
  "map (map status) (published (snd (run [''unknown-id'', ''b''])))
     = [[Pending, Pending], [Pending, Running], [Pending, Completed]]
   \<and> map (\<lambda>a. (index a, isl (outcome a))) (attempts (snd (run [''unknown-id'', ''b''])))
       = [(0, True), (1, False)]"
  by code_simp

section \<open>The empty chain\<close>

text \<open>
  C6 (as stated, refuted). The claim says the empty chain is reported through the
  run-level error path. On the freshly mounted component with an empty chain no outcome
  is published at all, so in particular no error outcome, and the console holds the
  warning of the guard, not the "Chain execution failed" entry of the outer handler.
\<close>

theorem empty_chain_no_error_outcome_counterexample:
  "executionResults (fst (run [])) = None
   \<and> console (snd (run [])) = [Warn ''No servers in orchestration chain'']"
  by code_simp

text \<open>
  C6 (amended). With an empty chain \<open>executeChain\<close> leaves the four state cells as
  they were (no step record is created and the outcome, absent or not, is not replaced:
  no success, partial or error outcome is produced), calls \<open>executeStep\<close> for no step,
  publishes no snapshot, does not call the completion callback, and only writes one
  warning to the console.
\<close>

theorem empty_chain_only_warns:
  assumes "orchestrationServers P = []"
  shows "fst (executeChain P c) = fst c
       \<and> attempts (snd (executeChain P c)) = attempts (snd c)
       \<and> published (snd (executeChain P c)) = published (snd c)
       \<and> reported (snd (executeChain P c)) = reported (snd c)
       \<and> console (snd (executeChain P c))
           = console (snd c) @ [Warn ''No servers in orchestration chain'']"
  using assms by (cases c) (simp add: executeChain_def consoleLog_def)

theorem empty_chain_only_warns_witness:
  "orchestrationServers (demo []) = []
   \<and> fst (executeChain (demo []) (idle, world0)) = fst (idle, world0)
   \<and> attempts (snd (executeChain (demo []) (idle, world0))) = attempts (snd (idle, world0))
   \<and> published (snd (executeChain (demo []) (idle, world0))) = published (snd (idle, world0))
   \<and> reported (snd (executeChain (demo []) (idle, world0))) = reported (snd (idle, world0))
   \<and> console (snd (executeChain (demo []) (idle, world0)))
       = console (snd (idle, world0)) @ [Warn ''No servers in orchestration chain'']"
proof -
  have h: "orchestrationServers (demo []) = []"
    by (simp add: demo_def)
  show ?thesis
    by (rule conjI [OF h empty_chain_only_warns [OF h]])
qed

section \<open>Total duration\<close>

text \<open>
  C7. For every non-empty chain the published outcome's \<open>totalDuration\<close> is the sum of
  the durations of the steps in the final list, a step without a duration counting zero.
\<close>

theorem total_duration_is_sum:
  assumes "orchestrationServers P \<noteq> []"
  shows "\<exists>r. executionResults (fst (executeChain P c)) = Some r
           \<and> totalDuration r
               = Some (sum_list (map (\<lambda>s. case duration s of None \<Rightarrow> 0 | Some d \<Rightarrow> d)
                                   (executionSteps (fst (executeChain P c)))))"
proof -
  from executeChain_nonempty [OF assms, of c] obtain c2 where
    run: "executeChain P c = setCurrentStepIndex (- 1) (setIsExecuting False (publishResults P c2))"
    by blast
  show ?thesis
    by (simp add: run finally_effect publishResults_effect)
qed

theorem total_duration_is_sum_witness:
  "orchestrationServers (demo [''b'', ''a'']) \<noteq> []
   \<and> (\<exists>r. executionResults (fst (executeChain (demo [''b'', ''a'']) (idle, world0))) = Some r
           \<and> totalDuration r
               = Some (sum_list (map (\<lambda>s. case duration s of None \<Rightarrow> 0 | Some d \<Rightarrow> d)
                    (executionSteps (fst (executeChain (demo [''b'', ''a'']) (idle, world0)))))))"
proof -
  have h: "orchestrationServers (demo [''b'', ''a'']) \<noteq> []"
    by (simp add: demo_def)
  show ?thesis
    by (rule conjI [OF h total_duration_is_sum [OF h]])
qed

section \<open>Step identifiers\<close>

text \<open>
  C8 (as stated, refuted). The claim permits duplicate entry identifiers and says the
  step ids stay unique. The chain \<open>a, a\<close> creates two steps with the same id.
\<close>

theorem duplicate_entries_share_id_counterexample:
  "map id_step (fst (initializeExecution (demo [''a'', ''a'']) (idle, world0)))
     = [''step-a'', ''step-a'']"
  by code_simp

text \<open>
  C8 (amended). The id of a step is \<open>step-\<close> followed by its entry identifier, so the
  ids of the created steps are pairwise distinct exactly when the entry identifiers of
  the chain are pairwise distinct (which is what the chain builder of the application
  hands over: it refuses to add an identifier that is already in the chain).
\<close>

theorem step_ids_distinct_iff_chain_distinct:
  "distinct (map id_step (fst (initializeExecution P c))) = distinct (orchestrationServers P)"
proof -
  have "map id_step (fst (initializeExecution P c))
          = map (\<lambda>sid. ''step-'' @ sid) (orchestrationServers P)"
    by (simp add: initializeExecution_def Let_def newStep_def comp_def)
  moreover have "inj (\<lambda>sid :: string. ''step-'' @ sid)"
    by (rule injI) simp
  ultimately show ?thesis
    by (simp add: distinct_map inj_on_def)
qed

theorem step_ids_distinct_iff_chain_distinct_witness:
  "distinct (map id_step (fst (initializeExecution (demo [''a'', ''b'']) (idle, world0))))
   \<and> distinct (orchestrationServers (demo [''a'', ''b'']))"
proof -
  have h: "distinct (orchestrationServers (demo [''a'', ''b'']))"
    by (simp add: demo_def)
  with step_ids_distinct_iff_chain_distinct [of "demo [''a'', ''b'']" "(idle, world0)"]
  show ?thesis by simp
qed

section \<open>Reset\<close>

text \<open>
  C9. After \<open>resetExecution\<close> the step list is empty, \<open>currentStepIndex\<close> is
  \<open>-1\<close> (none) and the outcome is \<open>null\<close>; resetting the resulting idle state again
  changes nothing, and the idle state is the one the component is mounted with.
\<close>

theorem reset_idempotent:
  "executionSteps (resetExecution s) = []
   \<and> currentStepIndex (resetExecution s) = - 1
   \<and> executionResults (resetExecution s) = None
   \<and> resetExecution s = idle
   \<and> resetExecution (resetExecution s) = resetExecution s"
  by (simp add: resetExecution_def idle_def)

section \<open>The run-level error branch\<close>

text \<open>
  C10. For every non-empty chain the body of the outer \<open>try\<close> finishes without
  throwing, whatever the step calls do (each throw of \<open>executeStep\<close> ends in the
  handler of the loop body), so the handler that publishes the error outcome is never
  entered and the outcome published by the run is success or partial.
\<close>

theorem run_level_error_unreachable:
  assumes "orchestrationServers P \<noteq> []"
  shows "fst (chainBody P (setIsExecuting True c)) = Inr ()
       \<and> (\<exists>r. executionResults (fst (executeChain P c)) = Some r
              \<and> status_run r \<in> {Success, Partial})"
proof -
  have "fst (chainBody P (setIsExecuting True c)) = Inr ()"
    using chainBody_effect(1) [of P "setIsExecuting True c"]
    by (cases "chainBody P (setIsExecuting True c)") simp
  moreover
  from executeChain_nonempty [OF assms, of c] obtain c2 where
    run: "executeChain P c = setCurrentStepIndex (- 1) (setIsExecuting False (publishResults P c2))"
    by blast
  have "\<exists>r. executionResults (fst (executeChain P c)) = Some r
              \<and> status_run r \<in> {Success, Partial}"
    by (simp add: run finally_effect publishResults_effect)
  ultimately show ?thesis by simp
qed

theorem run_level_error_unreachable_witness:
  "orchestrationServers (demo [''zz'', ''a'']) \<noteq> []
   \<and> fst (chainBody (demo [''zz'', ''a'']) (setIsExecuting True (idle, world0))) = Inr ()
   \<and> (\<exists>r. executionResults (fst (executeChain (demo [''zz'', ''a'']) (idle, world0))) = Some r
          \<and> status_run r \<in> {Success, Partial})"
proof -
  have h: "orchestrationServers (demo [''zz'', ''a'']) \<noteq> []"
    by (simp add: demo_def)
  show ?thesis
    by (rule conjI [OF h run_level_error_unreachable [OF h]])
qed

end
